theory Spec2Isabelle
  imports
    Main
    "HOL-Library.Finite_Map"
    "HOL-Library.Char_ord"
    "HOL-Library.List_Lexorder"
begin

section \<open>ScryfallCardGolf: a shallow embedding of \<^verbatim>\<open>card_golf.py\<close>\<close>

text \<open>
  The script talks to three outside parties: the file system (the JSON log, the results
  files and the card images), the Scryfall HTTP API and the Twitter API.  Each of them is
  an explicit component of a \<open>world\<close> record; every Python exception is a value of
  \<open>py_error\<close>; every call of the \<^verbatim>\<open>logging\<close> module is a record appended to a
  log that the functions return next to their result.

  Strings are \<open>char list\<close>; Python compares strings by code point, which on these
  lists is the lexicographic order of \<open>HOL-Library.List_Lexorder\<close> over
  \<open>HOL-Library.Char_ord\<close>.
\<close>

subsection \<open>Exceptions and logging\<close>

datatype py_error =
    KeyError
  | IndexError
  | ValueError
  | TypeError
  | AttributeError
  | JSONDecodeError
  | IOError
  | FileNotFoundError
  | UnicodeDecodeError
  | OverflowError
  | RequestError

datatype log_level = DEBUG | INFO | WARNING | ERROR

datatype fmt_arg = S string | I int | J "string option"

text \<open>A log record: the level, the format template, the arguments of \<^verbatim>\<open>format\<close>.\<close>

type_synonym log_record = "log_level \<times> string \<times> fmt_arg list"

text \<open>A computation: what it logged, and its result or the exception it raised.\<close>

type_synonym 'a comp = "log_record list \<times> (py_error + 'a)"

subsection \<open>Persisted data\<close>

record card_ref =
  cr_name :: string
  cr_url :: string

text \<open>\<^verbatim>\<open>send_tweet\<close> returns the string \<^verbatim>\<open>response['id_str']\<close> or the integer \<^verbatim>\<open>-1\<close>.\<close>

datatype tweet_id = IdStr string | IdInt int

record contest_entry =
  tweet_id :: tweet_id
  cards :: "card_ref list"

record result_entry =
  re_name :: string
  re_length :: nat
  re_query :: string

text \<open>
  What \<^verbatim>\<open>write_to_json_db\<close> is given as \<^verbatim>\<open>entry\<close>: the dict of a contest
  (from \<^verbatim>\<open>main\<close>) or the list of results (from \<^verbatim>\<open>write_results\<close>).
\<close>

datatype json_value = Contest contest_entry | Results "result_entry list"

text \<open>
  A JSON document on disk is a dict from keys to entries, or a list (of results, and of
  the strings that \<^verbatim>\<open>feeds += entry\<close> adds when \<open>entry\<close> is a dict).  The
  document stands for its text: \<^verbatim>\<open>json.load\<close> of what \<^verbatim>\<open>json.dumps\<close> wrote is taken
  to be the value written (keys are strings, values are strings, integers, lists and
  dicts).
\<close>

datatype json_item = Result result_entry | Str string

datatype json_doc =
    DictDoc "(string, json_value) fmap"
  | ListDoc "json_item list"

subsection \<open>Images\<close>

text \<open>
  A raster image: its size and its pixels (an RGB triple at each coordinate; coordinates
  outside the size are not part of the image).
\<close>

type_synonym colour = "nat \<times> nat \<times> nat"

record image =
  width :: nat
  height :: nat
  pixel :: "nat \<Rightarrow> nat \<Rightarrow> colour"

subsection \<open>The file system\<close>

datatype fs_file =
    JsonFile json_doc
  | ImageFile image
  | OtherFile

type_synonym files = "string \<rightharpoonup> fs_file"

subsection \<open>The Scryfall search response\<close>

record response_card =
  rc_name :: "string option"

record search_response =
  total_cards :: "int option"
  data :: "response_card list option"

subsection \<open>The Twitter API\<close>

text \<open>
  An item of the \<^verbatim>\<open>search/tweets\<close> pager: a tweet has \<^verbatim>\<open>'text'\<close>, the author's
  \<^verbatim>\<open>['user']['screen_name']\<close> and the \<^verbatim>\<open>'expanded_url'\<close> of each of its
  \<^verbatim>\<open>['entities']['urls']\<close>; an error item has \<^verbatim>\<open>'message'\<close> and \<^verbatim>\<open>'code'\<close>.
\<close>

record tweet_item =
  text_field :: "string option"
  screen_name :: string
  urls :: "string list"
  message :: "string option"
  code :: "int option"

text \<open>The parsed answer to \<^verbatim>\<open>statuses/update_with_media\<close>.\<close>

record twitter_response =
  status_code :: int
  id_str :: "string option"

subsection \<open>The world\<close>

text \<open>
  \<open>parse_qs_query url\<close> is \<^verbatim>\<open>urlparse.parse_qs(urlparse.urlparse(url).query)\<close>;
  \<open>http_get_json url\<close> is \<^verbatim>\<open>requests.get(url=url).json()\<close>;
  \<open>TWEET_DATABASE\<close> and \<open>TWEETER_ACCOUNT\<close> are the constants of the package's
  \<^verbatim>\<open>__init__\<close>; \<open>strftime_now\<close> is \<^verbatim>\<open>time.strftime('%Y-%m-%d_%H:%M:%S')\<close>, the
  wall clock to the second; \<open>now\<close> is \<^verbatim>\<open>datetime.datetime.now()\<close> and
  \<open>strptime s\<close> is \<^verbatim>\<open>datetime.datetime.strptime(s, '%Y-%m-%d_%H:%M:%S')\<close>
  (\<open>None\<close> when it raises \<^verbatim>\<open>ValueError\<close>), both in microseconds since
  0001-01-01T00:00:00; \<open>tweet_stream\<close> is what the iterator of
  \<^verbatim>\<open>TwitterPager(twitter_api, 'search/tweets', ...)\<close> yields; \<open>twitter_request status photo\<close>
  is the request \<^verbatim>\<open>statuses/update_with_media\<close> with its answer parsed;
  \<open>glob_png\<close> is \<^verbatim>\<open>glob.glob(TEMP_CARD_DIR + '*.png')\<close>; \<open>resample im size\<close> is
  the pixels that \<^verbatim>\<open>PIL\<close>'s antialiasing filter computes for \<open>im\<close> at the new
  \<open>size\<close>.
\<close>

record world =
  fs :: files
  parse_qs_query :: "string \<Rightarrow> (string \<rightharpoonup> string list)"
  http_get_json :: "string \<Rightarrow> py_error + search_response"
  TWEET_DATABASE :: string
  TWEETER_ACCOUNT :: string
  TEMP_CARD_DIR :: string
  strftime_now :: string
  now :: int
  strptime :: "string \<Rightarrow> int option"
  tweet_stream :: "tweet_item list"
  twitter_request :: "string \<Rightarrow> fs_file \<Rightarrow> py_error + twitter_response"
  glob_png :: "string list"
  resample :: "image \<Rightarrow> nat \<times> nat \<Rightarrow> nat \<Rightarrow> nat \<Rightarrow> colour"

subsection \<open>String helpers of Python\<close>

text \<open>\<^verbatim>\<open>str.lower\<close> on ASCII text.\<close>

definition lower_char :: "char \<Rightarrow> char" where
  "lower_char c =
     (if CHR ''A'' \<le> c \<and> c \<le> CHR ''Z'' then char_of (of_char c + (32::nat)) else c)"

definition lower :: "string \<Rightarrow> string" where
  "lower s = map lower_char s"

text \<open>\<^verbatim>\<open>sub in s\<close> on strings: \<open>sub\<close> occurs in \<open>s\<close> as a contiguous run.\<close>

fun str_in :: "string \<Rightarrow> string \<Rightarrow> bool" where
  "str_in sub [] = (sub = [])"
| "str_in sub (c # cs) = (take (length sub) (c # cs) = sub \<or> str_in sub cs)"

subsection \<open>\<^verbatim>\<open>download_contents\<close> and \<^verbatim>\<open>load_json_db\<close>\<close>

text \<open>\<^verbatim>\<open>download_contents(url)\<close> with the default \<^verbatim>\<open>download_type = 'json'\<close>.\<close>

definition download_contents :: "world \<Rightarrow> string \<Rightarrow> search_response comp" where
  "download_contents w url =
     (case http_get_json w url of
        Inl e \<Rightarrow> ([], Inl e)
      | Inr request_response \<Rightarrow>
          ([(DEBUG, ''Downloaded URL {0}'', [S url])], Inr request_response))"

definition load_json_db :: "files \<Rightarrow> string \<Rightarrow> py_error + json_doc" where
  "load_json_db f file_name =
     (case f file_name of
        None \<Rightarrow> Inr (DictDoc fmempty)
      | Some (JsonFile d) \<Rightarrow> Inr d
      | Some _ \<Rightarrow> Inl JSONDecodeError)"

text \<open>\<^verbatim>\<open>max(json_db.keys())\<close>: a list has no \<^verbatim>\<open>keys\<close>, an empty dict has no maximum.\<close>

definition max_key_of :: "json_doc \<Rightarrow> py_error + string" where
  "max_key_of d =
     (case d of
        ListDoc _ \<Rightarrow> Inl AttributeError
      | DictDoc m \<Rightarrow> (if fmdom m = {||} then Inl ValueError else Inr (fMax (fmdom m))))"

subsection \<open>\<^verbatim>\<open>test_query\<close>\<close>

text \<open>
  \<^verbatim>\<open>[json_db[max_key]['cards'][0]['name'], json_db[max_key]['cards'][1]['name']]\<close>.
  Indexing a list of results with \<^verbatim>\<open>'cards'\<close> is a \<^verbatim>\<open>TypeError\<close>; a contest with fewer
  than two cards is an \<^verbatim>\<open>IndexError\<close>.
\<close>

definition valid_cards_of :: "(string, json_value) fmap \<Rightarrow> string \<Rightarrow> py_error + string list" where
  "valid_cards_of m max_key =
     (case fmlookup m max_key of
        None \<Rightarrow> Inl KeyError
      | Some (Results _) \<Rightarrow> Inl TypeError
      | Some (Contest e) \<Rightarrow>
          (case cards e of
             c0 # c1 # _ \<Rightarrow> Inr [cr_name c0, cr_name c1]
           | _ \<Rightarrow> Inl IndexError))"

text \<open>
  The loop over \<^verbatim>\<open>response['data']\<close>: \<open>Inr (Some n)\<close> when it returns at the first card
  whose name \<open>n\<close> is not valid, \<open>Inr None\<close> when it runs to its end, \<open>Inl KeyError\<close> when
  a card without a name comes first.
\<close>

fun first_wrong_card :: "string list \<Rightarrow> response_card list \<Rightarrow> py_error + string option" where
  "first_wrong_card valid_cards [] = Inr None"
| "first_wrong_card valid_cards (crd # rest) =
     (case rc_name crd of
        None \<Rightarrow> Inl KeyError
      | Some n \<Rightarrow>
          (if n \<notin> set valid_cards then Inr (Some n)
           else first_wrong_card valid_cards rest))"

text \<open>The body of the \<^verbatim>\<open>try\<close> block.\<close>

definition test_query_try :: "world \<Rightarrow> string \<Rightarrow> string \<Rightarrow> string comp" where
  "test_query_try w user_name scryfall_url =
     (case parse_qs_query w scryfall_url ''q'' of
        None \<Rightarrow> ([], Inl KeyError)
      | Some [] \<Rightarrow> ([], Inl IndexError)
      | Some (query # _) \<Rightarrow>
     (case download_contents w (''https://api.scryfall.com/cards/search?q='' @ query) of
        (l0, Inl e) \<Rightarrow> (l0, Inl e)
      | (l0, Inr response) \<Rightarrow>
     (case total_cards response of
        None \<Rightarrow> (l0, Inl KeyError)
      | Some n \<Rightarrow>
     (let l1 = l0 @ (if n \<noteq> 2
                     then [(INFO, ''{0} result has wrong number of cards: {1}'', [S user_name, I n])]
                     else [])
      in
     (case load_json_db (fs w) (TWEET_DATABASE w) of
        Inl e \<Rightarrow> (l1, Inl e)
      | Inr json_db \<Rightarrow>
     (case max_key_of json_db of
        Inl e \<Rightarrow> (l1, Inl e)
      | Inr max_key \<Rightarrow>
     (case valid_cards_of (case json_db of DictDoc m \<Rightarrow> m | ListDoc _ \<Rightarrow> fmempty) max_key of
        Inl e \<Rightarrow> (l1, Inl e)
      | Inr valid_cards \<Rightarrow>
     (case data response of
        None \<Rightarrow> (l1, Inl KeyError)
      | Some cs \<Rightarrow>
     (case first_wrong_card valid_cards cs of
        Inl e \<Rightarrow> (l1, Inl e)
      | Inr (Some n) \<Rightarrow>
          (l1 @ [(INFO, ''{0} result has wrong card: {1}'', [S user_name, S n])], Inr '''')
      | Inr None \<Rightarrow>
          (if str_in ''or'' (lower query)
           then (l1 @ [(INFO, ''{0} was correct, but they used '' @ CHR 0x27 # ''OR'' @ CHR 0x27 # '': {1}'', [S user_name, S query])],
                 Inr '''')
           else (l1 @ [(INFO, ''{0} was correct! [ {1} ] ({2})'',
                        [S user_name, S query, I (int (length query))])],
                 Inr query)))))))))))"

text \<open>\<^verbatim>\<open>except KeyError\<close>: the reply is rejected; every other exception propagates.\<close>

definition test_query :: "world \<Rightarrow> string \<Rightarrow> string \<Rightarrow> string comp" where
  "test_query w user_name scryfall_url =
     (case test_query_try w user_name scryfall_url of
        (l, Inl KeyError) \<Rightarrow>
          (l @ [(INFO, ''{0} submitted a bad Scryfall URL: {1}'', [S user_name, S scryfall_url])],
           Inr '''')
      | r \<Rightarrow> r)"

subsection \<open>\<^verbatim>\<open>write_to_json_db\<close>\<close>

text \<open>
  \<^verbatim>\<open>feeds += entry\<close> on a list: a list of results is appended; a dict adds its keys, in
  the order \<^verbatim>\<open>main\<close> built it.
\<close>

definition list_iadd :: "json_item list \<Rightarrow> json_value \<Rightarrow> json_item list" where
  "list_iadd feeds entry =
     (case entry of
        Results rs \<Rightarrow> feeds @ map Result rs
      | Contest _ \<Rightarrow> feeds @ [Str ''tweet_id'', Str ''cards''])"

text \<open>
  The new file system, or the exception of \<^verbatim>\<open>json.load\<close>.  Writing a file is taken to
  succeed.
\<close>

definition write_to_json_db :: "world \<Rightarrow> files \<Rightarrow> string \<Rightarrow> json_value \<Rightarrow> py_error + files" where
  "write_to_json_db w f file_name entry =
     (case f file_name of
        None \<Rightarrow>
          (case entry of
             Contest _ \<Rightarrow>
               Inr (f(file_name \<mapsto> JsonFile (DictDoc (fmupd (strftime_now w) entry fmempty))))
           | Results rs \<Rightarrow>
               Inr (f(file_name \<mapsto> JsonFile (ListDoc (map Result rs)))))
      | Some (JsonFile (DictDoc feeds)) \<Rightarrow>
          Inr (f(file_name \<mapsto> JsonFile (DictDoc (fmupd (strftime_now w) entry feeds))))
      | Some (JsonFile (ListDoc feeds)) \<Rightarrow>
          Inr (f(file_name \<mapsto> JsonFile (ListDoc (list_iadd feeds entry))))
      | Some _ \<Rightarrow> Inl JSONDecodeError)"

subsection \<open>\<^verbatim>\<open>get_results\<close> and \<^verbatim>\<open>write_results\<close>\<close>

text \<open>The loop over \<^verbatim>\<open>item['entities']['urls']\<close>, with \<open>valid_entries\<close> threaded.\<close>

fun urls_loop ::
  "world \<Rightarrow> string \<Rightarrow> string list \<Rightarrow> result_entry list \<Rightarrow> result_entry list comp" where
  "urls_loop w sn [] valid_entries = ([], Inr valid_entries)"
| "urls_loop w sn (test_url # rest) valid_entries =
     (if str_in ''scryfall.com'' test_url then
        (case test_query w sn test_url of
           (l, Inl e) \<Rightarrow> ((DEBUG, ''{0} submitted solution: {1}'', [S sn, S test_url]) # l, Inl e)
         | (l, Inr test_query_results) \<Rightarrow>
             (case urls_loop w sn rest
                     (if length test_query_results > 0
                      then valid_entries @
                           [\<lparr>re_name = sn, re_length = length test_query_results,
                             re_query = test_query_results\<rparr>]
                      else valid_entries) of
                (l', r) \<Rightarrow>
                  ((DEBUG, ''{0} submitted solution: {1}'', [S sn, S test_url]) # l @ l', r)))
      else urls_loop w sn rest valid_entries)"

text \<open>
  The loop over the pager.  A tweet of \<open>TWEETER_ACCOUNT\<close> is handled like every other
  tweet and then ends the loop; an error item with code 88 ends it at once; an error item
  without \<^verbatim>\<open>'code'\<close> raises \<^verbatim>\<open>KeyError\<close>; any other item is passed over.
\<close>

fun items_loop :: "world \<Rightarrow> tweet_item list \<Rightarrow> result_entry list \<Rightarrow> result_entry list comp" where
  "items_loop w [] valid_entries = ([], Inr valid_entries)"
| "items_loop w (item # rest) valid_entries =
     (case text_field item of
        Some t \<Rightarrow>
          (case urls_loop w (screen_name item) (urls item) valid_entries of
             (l, Inl e) \<Rightarrow> ((DEBUG, screen_name item @ '': '' @ t, []) # l, Inl e)
           | (l, Inr valid_entries') \<Rightarrow>
               (if screen_name item = TWEETER_ACCOUNT w
                then ((DEBUG, screen_name item @ '': '' @ t, []) # l, Inr valid_entries')
                else (case items_loop w rest valid_entries' of
                        (l', r) \<Rightarrow> ((DEBUG, screen_name item @ '': '' @ t, []) # l @ l', r))))
      | None \<Rightarrow>
          (case message item of
             None \<Rightarrow> items_loop w rest valid_entries
           | Some m \<Rightarrow>
               (case code item of
                  None \<Rightarrow> ([], Inl KeyError)
                | Some c \<Rightarrow>
                    (if c = 88
                     then ([(WARNING, ''SUSPEND, RATE LIMIT EXCEEDED: %s'' @ [CHR 0x0A], [S m])],
                           Inr valid_entries)
                     else items_loop w rest valid_entries))))"

definition get_results :: "world \<Rightarrow> result_entry list comp" where
  "get_results w =
     (case items_loop w (tweet_stream w) [] of
        (l, r) \<Rightarrow> ((INFO, ''CONTEST OVER -- RESULTS'', []) # l, r))"

definition write_results :: "world \<Rightarrow> files \<Rightarrow> result_entry list \<Rightarrow> py_error + files" where
  "write_results w f results =
     (case load_json_db f (TWEET_DATABASE w) of
        Inl e \<Rightarrow> Inl e
      | Inr json_db \<Rightarrow>
          (case max_key_of json_db of
             Inl e \<Rightarrow> Inl e
           | Inr file_key \<Rightarrow>
               write_to_json_db w f (''../winners_'' @ file_key @ ''.json'') (Results results)))"

subsection \<open>\<^verbatim>\<open>is_active_contest_already\<close>\<close>

text \<open>
  \<^verbatim>\<open>datetime.timedelta(days=1)\<close> and \<^verbatim>\<open>datetime.datetime.max\<close>
  (9999-12-31T23:59:59.999999), in microseconds; a sum beyond the latter raises
  \<^verbatim>\<open>OverflowError\<close>.
\<close>

definition one_day :: int where
  "one_day = 86400000000"

definition datetime_max :: int where
  "datetime_max = 3652059 * 86400000000 - 1"

text \<open>
  The file system after the call, the log, and the result.  \<^verbatim>\<open>load_json_db\<close> and
  \<^verbatim>\<open>strptime\<close> are called outside the \<^verbatim>\<open>try\<close>, which catches the \<^verbatim>\<open>ValueError\<close>
  of \<^verbatim>\<open>max\<close> alone.
\<close>

definition is_active_contest_already :: "world \<Rightarrow> files \<times> log_record list \<times> (py_error + bool)" where
  "is_active_contest_already w =
     (case load_json_db (fs w) (TWEET_DATABASE w) of
        Inl e \<Rightarrow> (fs w, [], Inl e)
      | Inr json_db \<Rightarrow>
     (case max_key_of json_db of
        Inl ValueError \<Rightarrow> (fs w, [(WARNING, ''Database was empty, continuing'', [])], Inr False)
      | Inl e \<Rightarrow> (fs w, [], Inl e)
      | Inr max_key \<Rightarrow>
     (case strptime w max_key of
        None \<Rightarrow> (fs w, [], Inl ValueError)
      | Some current_contest_start_date \<Rightarrow>
     (if current_contest_start_date + one_day > datetime_max then (fs w, [], Inl OverflowError)
      else if current_contest_start_date + one_day > now w
      then (fs w, [(WARNING, ''Current contest from {0} still active'', [S max_key])], Inr True)
      else
     (case get_results w of
        (l, Inl e) \<Rightarrow> (fs w, l, Inl e)
      | (l, Inr results) \<Rightarrow>
     (case write_results w (fs w) results of
        Inl e \<Rightarrow> (fs w, l, Inl e)
      | Inr f' \<Rightarrow> (f', l, Inr False)))))))"

subsection \<open>\<^verbatim>\<open>resize_image\<close>\<close>

text \<open>
  \<^verbatim>\<open>PIL\<close>'s \<^verbatim>\<open>Image.thumbnail(size, resample)\<close> is library code, not code of the
  script; it is modelled from the library.  Its size rule, in the Pillow releases before
  7.0 (those of the script's time), is
  \<^verbatim>\<open>
  x, y = self.size
  if x > size[0]: y = int(max(y * size[0] / x, 1)); x = int(size[0])
  if y > size[1]: x = int(max(x * size[1] / y, 1)); y = int(size[1])
  size = x, y
  if size == self.size: return
  \<close>
  with the quotients truncated to integers, here \<open>div\<close> on \<open>nat\<close> (the float
  quotient of two integers below \<open>2^26\<close> truncates to their integer quotient).  The
  resampled pixels are those of the world's \<open>resample\<close>.
\<close>

definition thumbnail_size :: "nat \<times> nat \<Rightarrow> nat \<times> nat \<Rightarrow> nat \<times> nat" where
  "thumbnail_size sz xy =
     (let x = fst xy; y = snd xy;
          y1 = (if x > fst sz then max (y * fst sz div x) 1 else y);
          x1 = (if x > fst sz then fst sz else x);
          x2 = (if y1 > snd sz then max (x1 * snd sz div y1) 1 else x1);
          y2 = (if y1 > snd sz then snd sz else y1)
      in (x2, y2))"

definition thumbnail :: "world \<Rightarrow> nat \<times> nat \<Rightarrow> image \<Rightarrow> image" where
  "thumbnail w sz im =
     (let s = thumbnail_size sz (width im, height im)
      in if s = (width im, height im) then im
         else \<lparr>width = fst s, height = snd s, pixel = resample w im s\<rparr>)"

text \<open>
  \<^verbatim>\<open>PIL.Image.open\<close> raises \<^verbatim>\<open>IOError\<close> on a path that is no file or no image; the
  \<^verbatim>\<open>except\<close> clause logs it.  The file system after the call and the log.
\<close>

definition resize_image :: "world \<Rightarrow> files \<Rightarrow> string \<Rightarrow> files \<times> log_record list" where
  "resize_image w f url_to_open =
     (case f url_to_open of
        Some (ImageFile im) \<Rightarrow> (f(url_to_open \<mapsto> ImageFile (thumbnail w (1024, 512) im)), [])
      | _ \<Rightarrow> (f, [(ERROR, ''Cannot create thumbnail for {0}'', [S url_to_open])]))"

subsection \<open>\<^verbatim>\<open>send_tweet\<close>\<close>

text \<open>
  \<open>url_to_media\<close> is \<open>None\<close> for Python's \<^verbatim>\<open>None\<close>.  \<^verbatim>\<open>open(url_to_media, 'rb')\<close>
  raises \<^verbatim>\<open>FileNotFoundError\<close> where there is no file; \<^verbatim>\<open>response['id_str']\<close> raises
  \<^verbatim>\<open>KeyError\<close> where the answer has no identifier; the \<^verbatim>\<open>except\<close> clause catches
  \<^verbatim>\<open>UnicodeDecodeError\<close> alone.
\<close>

definition send_tweet ::
  "world \<Rightarrow> files \<Rightarrow> string \<Rightarrow> string option \<Rightarrow> files \<times> log_record list \<times> (py_error + tweet_id)" where
  "send_tweet w f message_to_tweet url_to_media =
     (let l0 = [(DEBUG, ''Tweet to send: {0}'', [S message_to_tweet])] in
      case url_to_media of
        None \<Rightarrow> (f, l0, Inr (IdInt (- 1)))
      | Some u \<Rightarrow>
     (case resize_image w f u of (f', l1) \<Rightarrow>
     (case f' u of
        None \<Rightarrow> (f', l0 @ l1, Inl FileNotFoundError)
      | Some photo \<Rightarrow>
     (case twitter_request w message_to_tweet photo of
        Inl e \<Rightarrow>
          (if e = UnicodeDecodeError
           then (f', l0 @ l1 @
                   [(ERROR, ''Your message could not be encoded.  Perhaps it contains non-ASCII characters? '', [])],
                 Inr (IdInt (- 1)))
           else (f', l0 @ l1, Inl e))
      | Inr status \<Rightarrow>
     (let l2 = l0 @ l1 @
               [(DEBUG, ''Twitter Status Code: {0}'', [I (status_code status)]),
                (DEBUG, ''Twitter Response Parsed: {0}'', [J (id_str status)])]
      in case id_str status of
           None \<Rightarrow> (f', l2, Inl KeyError)
         | Some i \<Rightarrow> (f', l2, Inr (IdStr i)))))))"

subsection \<open>\<^verbatim>\<open>merge_card_images\<close>\<close>

record scryfall_card =
  sc_name :: string
  sc_uri :: string

text \<open>\<^verbatim>\<open>s.replace('//', '_')\<close>.\<close>

fun replace_slashes :: "string \<Rightarrow> string" where
  "replace_slashes (a # b # cs) =
     (if a = CHR ''/'' \<and> b = CHR ''/'' then CHR ''_'' # replace_slashes cs
      else a # replace_slashes (b # cs))"
| "replace_slashes cs = cs"

text \<open>\<^verbatim>\<open>map(PIL.Image.open, cards_to_merge)\<close>, consumed.\<close>

fun open_all :: "files \<Rightarrow> string list \<Rightarrow> py_error + image list" where
  "open_all f [] = Inr []"
| "open_all f (p # ps) =
     (case f p of
        Some (ImageFile im) \<Rightarrow>
          (case open_all f ps of Inl e \<Rightarrow> Inl e | Inr ims \<Rightarrow> Inr (im # ims))
      | Some _ \<Rightarrow> Inl IOError
      | None \<Rightarrow> Inl FileNotFoundError)"

text \<open>\<^verbatim>\<open>max(heights)\<close> of a tuple that is not empty.\<close>

fun max_list :: "nat list \<Rightarrow> nat" where
  "max_list [] = 0"
| "max_list (h # hs) = max h (max_list hs)"

text \<open>\<^verbatim>\<open>PIL.Image.new('RGB', size)\<close>: a black canvas.\<close>

definition new_image :: "nat \<times> nat \<Rightarrow> image" where
  "new_image sz = \<lparr>width = fst sz, height = snd sz, pixel = (\<lambda>x y. (0, 0, 0))\<rparr>"

text \<open>\<^verbatim>\<open>new_im.paste(im, (x_offset, 0))\<close>.\<close>

definition paste :: "image \<Rightarrow> image \<Rightarrow> nat \<Rightarrow> image" where
  "paste new_im im x_offset =
     new_im\<lparr>pixel :=
       (\<lambda>x y. if x_offset \<le> x \<and> x < x_offset + width im \<and> y < height im
              then pixel im (x - x_offset) y
              else pixel new_im x y)\<rparr>"

fun paste_all :: "image \<Rightarrow> nat \<Rightarrow> image list \<Rightarrow> image" where
  "paste_all new_im x_offset [] = new_im"
| "paste_all new_im x_offset (im # ims) =
     paste_all (paste new_im im x_offset) (x_offset + width im) ims"

text \<open>The canvas that \<^verbatim>\<open>merge_card_images\<close> saves.\<close>

definition merged_image :: "image list \<Rightarrow> image" where
  "merged_image images =
     (let total_width = sum_list (map width images);
          max_height = max_list (map height images)
      in paste_all (new_image (total_width, max_height)) 0 images)"

text \<open>
  Unpacking \<^verbatim>\<open>zip(*...)\<close> of no image raises \<^verbatim>\<open>ValueError\<close>; \<^verbatim>\<open>cards[1]\<close> of fewer
  than two cards raises \<^verbatim>\<open>IndexError\<close>.
\<close>

definition merge_card_images ::
  "world \<Rightarrow> files \<Rightarrow> scryfall_card list \<Rightarrow> files \<times> log_record list \<times> (py_error + string)" where
  "merge_card_images w f cs =
     (case open_all f (glob_png w) of
        Inl e \<Rightarrow> (f, [], Inl e)
      | Inr images \<Rightarrow>
          (if images = [] then (f, [], Inl ValueError)
           else
             (case cs of
                c0 # c1 # _ \<Rightarrow>
                  (let save_url = TEMP_CARD_DIR w @ ''/'' @ replace_slashes (sc_name c0) @ ''-'' @
                                  replace_slashes (sc_name c1) @ ''.png''
                   in (f(save_url \<mapsto> ImageFile (merged_image images)),
                       [(DEBUG, ''Saved merged image to {0}'', [S save_url])],
                       Inr save_url))
              | _ \<Rightarrow> (f, [], Inl IndexError))))"

subsection \<open>Example inputs\<close>

definition example_entry :: contest_entry where
  "example_entry =
     \<lparr>tweet_id = IdStr ''1002938475'',
      cards = [\<lparr>cr_name = ''Lightning Bolt'', cr_url = ''https://scryfall.com/card/a25/141''\<rparr>,
               \<lparr>cr_name = ''Counterspell'', cr_url = ''https://scryfall.com/card/a25/50''\<rparr>]\<rparr>"

definition older_entry :: contest_entry where
  "older_entry =
     \<lparr>tweet_id = IdStr ''1002576087'',
      cards = [\<lparr>cr_name = ''Giant Growth'', cr_url = ''https://scryfall.com/card/m14/174''\<rparr>,
               \<lparr>cr_name = ''Dark Ritual'', cr_url = ''https://scryfall.com/card/a25/82''\<rparr>]\<rparr>"

definition example_db :: "(string, json_value) fmap" where
  "example_db =
     fmupd ''2018-06-02_12:00:00'' (Contest example_entry)
       (fmupd ''2018-06-01_12:00:00'' (Contest older_entry) fmempty)"

text \<open>
  A world whose log is \<open>example_db\<close>, where a reply links to the search for \<open>q\<close>
  and Scryfall answers that search with \<open>r\<close>.  The clock stands at
  2018-06-02T18:00:00, six hours after the start of the latest contest.
\<close>

definition search_url :: "string \<Rightarrow> string" where
  "search_url q = ''https://scryfall.com/search?q='' @ q"

definition example_strptime :: "string \<Rightarrow> int option" where
  "example_strptime s =
     (if s = ''2018-06-02_12:00:00'' then Some (736846 * 86400000000 + 43200000000)
      else if s = ''2018-06-01_12:00:00'' then Some (736845 * 86400000000 + 43200000000)
      else None)"

definition search_world :: "string \<Rightarrow> search_response \<Rightarrow> world" where
  "search_world q r =
     \<lparr>fs = [''../tweets.json'' \<mapsto> JsonFile (DictDoc example_db)],
      parse_qs_query = (\<lambda>u. if u = search_url q then [''q'' \<mapsto> [q]] else Map.empty),
      http_get_json =
        (\<lambda>u. if u = ''https://api.scryfall.com/cards/search?q='' @ q then Inr r
             else Inl RequestError),
      TWEET_DATABASE = ''../tweets.json'',
      TWEETER_ACCOUNT = ''ScryfallCardGolf'',
      TEMP_CARD_DIR = ''../cards/'',
      strftime_now = ''2018-06-02_18:00:00'',
      now = 736846 * 86400000000 + 64800000000,
      strptime = example_strptime,
      tweet_stream = [],
      twitter_request = (\<lambda>status photo. Inl RequestError),
      glob_png = [],
      resample = (\<lambda>im sz x y. (0, 0, 0))\<rparr>"

text \<open>
  A reply whose query finds both cards of the contest but has \<open>or\<close> inside
  \<open>color\<close>, and a reply whose query finds one of the two cards alone.
\<close>

definition or_query :: string where
  "or_query = ''t:instant color<=ur cmc<=2''"

definition two_card_response :: search_response where
  "two_card_response =
     \<lparr>total_cards = Some 2,
      data = Some [\<lparr>rc_name = Some ''Counterspell''\<rparr>, \<lparr>rc_name = Some ''Lightning Bolt''\<rparr>]\<rparr>"

definition one_card_query :: string where
  "one_card_query = ''!Counterspell''"

definition one_card_response :: search_response where
  "one_card_response =
     \<lparr>total_cards = Some 1, data = Some [\<lparr>rc_name = Some ''Counterspell''\<rparr>]\<rparr>"

text \<open>
  Writing an entry and reading the file back: \<^verbatim>\<open>write_to_json_db(file_name, entry)\<close>
  followed by \<^verbatim>\<open>load_json_db(file_name)\<close>.
\<close>

definition write_then_load :: "world \<Rightarrow> files \<Rightarrow> string \<Rightarrow> json_value \<Rightarrow> py_error + json_doc" where
  "write_then_load w f file_name entry =
     (case write_to_json_db w f file_name entry of
        Inl e \<Rightarrow> Inl e
      | Inr f' \<Rightarrow> load_json_db f' file_name)"

text \<open>
  A second contest forced in the very second the latest one was logged: the clock reads
  the latest key.
\<close>

definition same_second_world :: world where
  "same_second_world =
     (search_world or_query two_card_response)\<lparr>strftime_now := ''2018-06-02_12:00:00''\<rparr>"

text \<open>A world without a log file, and one whose log file holds the empty dict.\<close>

definition missing_log_world :: world where
  "missing_log_world = (search_world or_query two_card_response)\<lparr>fs := Map.empty\<rparr>"

definition empty_log_world :: world where
  "empty_log_world =
     (search_world or_query two_card_response)
       \<lparr>fs := [''../tweets.json'' \<mapsto> JsonFile (DictDoc fmempty)]\<rparr>"

text \<open>
  The same log a second after the 24 hours of the latest contest have passed
  (2018-06-03T12:00:01), with no reply in the stream.
\<close>

definition late_world :: world where
  "late_world =
     (search_world or_query two_card_response)
       \<lparr>strftime_now := ''2018-06-03_12:00:01'',
        now := 736847 * 86400000000 + 43201000000\<rparr>"

text \<open>
  Two card images as Scryfall serves them (745 by 1040 pixels), the merged image of the
  latest contest on disk, and a Twitter that answers every status but one with a new
  identifier.
\<close>

definition bolt_image :: image where
  "bolt_image = \<lparr>width = 745, height = 1040, pixel = (\<lambda>x y. (200, 30, 30))\<rparr>"

definition counterspell_image :: image where
  "counterspell_image = \<lparr>width = 745, height = 1040, pixel = (\<lambda>x y. (30, 30, 200))\<rparr>"

definition merged_path :: string where
  "merged_path = ''../cards//Lightning Bolt-Counterspell.png''"

definition undecodable_message :: string where
  "undecodable_message = ''Can you make both of these cards show up?'' @ [CHR 0xE2, CHR 0x80]"

definition post_world :: world where
  "post_world =
     (search_world or_query two_card_response)
       \<lparr>fs := [''../cards/Lightning Bolt.png'' \<mapsto> ImageFile bolt_image,
               ''../cards/Counterspell.png'' \<mapsto> ImageFile counterspell_image,
               merged_path \<mapsto> ImageFile (merged_image [bolt_image, counterspell_image]),
               ''../cards/notes.png'' \<mapsto> OtherFile],
        twitter_request :=
          (\<lambda>status photo.
             if status = undecodable_message then Inl UnicodeDecodeError
             else Inr \<lparr>status_code = 200, id_str = Some ''1003300858''\<rparr>),
        glob_png := [''../cards/Lightning Bolt.png'', ''../cards/Counterspell.png'']\<rparr>"

text \<open>
  The two events of the results scan: a tweet of the bot's own account, and the error
  item by which the API signals its rate limit.
\<close>

definition own_post :: "world \<Rightarrow> tweet_item \<Rightarrow> bool" where
  "own_post w item = (text_field item \<noteq> None \<and> screen_name item = TWEETER_ACCOUNT w)"

definition rate_limited :: "tweet_item \<Rightarrow> bool" where
  "rate_limited item = (text_field item = None \<and> message item \<noteq> None \<and> code item = Some 88)"






text \<open>The two cards of the latest contest, as \<^verbatim>\<open>main\<close> holds them.\<close>

definition example_cards :: "scryfall_card list" where
  "example_cards =
     [\<lparr>sc_name = ''Lightning Bolt'', sc_uri = ''https://scryfall.com/card/a25/141''\<rparr>,
      \<lparr>sc_name = ''Counterspell'', sc_uri = ''https://scryfall.com/card/a25/50''\<rparr>]"

text \<open>A reply whose query finds three printings of the two cards.\<close>

definition three_card_query :: string where
  "three_card_query = ''unique:prints e:a25 t:instant cmc<=2 id<=ur''"

definition three_card_response :: search_response where
  "three_card_response =
     \<lparr>total_cards = Some 3,
      data = Some [\<lparr>rc_name = Some ''Counterspell''\<rparr>, \<lparr>rc_name = Some ''Lightning Bolt''\<rparr>,
                   \<lparr>rc_name = Some ''Counterspell''\<rparr>]\<rparr>"







section \<open>Properties\<close>

subsection \<open>Query validation\<close>

lemma first_wrong_card_None:
  "first_wrong_card vs cs = Inr None \<longleftrightarrow>
     (\<forall>c \<in> set cs. \<exists>n. rc_name c = Some n \<and> n \<in> set vs)"
  by (induction cs) (auto split: option.splits)

lemma fMax_example_db: "fMax (fmdom example_db) = ''2018-06-02_12:00:00''"
  by (simp add: example_db_def)

text \<open>
  What \<open>test_query\<close> accepts, with the log and the reply well formed: the answer has
  a card count (whatever its value) and a list of cards, every card of the list is one
  of the two of the latest contest, and the lowercased query has no \<open>or\<close> inside.
\<close>

lemma test_query_accepts_iff:
  assumes q: "parse_qs_query w scryfall_url ''q'' = Some (query # others)"
    and nonempty: "query \<noteq> []"
    and resp: "http_get_json w (''https://api.scryfall.com/cards/search?q='' @ query) = Inr response"
    and db: "fs w (TWEET_DATABASE w) = Some (JsonFile (DictDoc m))" "fmdom m \<noteq> {||}"
    and entry: "fmlookup m (fMax (fmdom m)) = Some (Contest e)" "cards e = c0 # c1 # more_cards"
  shows "snd (test_query w user_name scryfall_url) = Inr query \<longleftrightarrow>
           (\<exists>n cs. total_cards response = Some n \<and> data response = Some cs \<and>
              (\<forall>c \<in> set cs. \<exists>nm. rc_name c = Some nm \<and> nm \<in> {cr_name c0, cr_name c1}) \<and>
              \<not> str_in ''or'' (lower query))"
proof -
  have v: "valid_cards_of m (fMax (fmdom m)) = Inr [cr_name c0, cr_name c1]"
    using entry by (simp add: valid_cards_of_def)
  have l: "load_json_db (fs w) (TWEET_DATABASE w) = Inr (DictDoc m)"
    "max_key_of (DictDoc m) = Inr (fMax (fmdom m))"
    using db by (simp_all add: load_json_db_def max_key_of_def)
  show ?thesis
  proof (cases "total_cards response")
    case None
    with q resp nonempty show ?thesis
      by (simp add: test_query_def test_query_try_def download_contents_def Let_def)
  next
    case (Some n)
    note tc = Some
    show ?thesis
    proof (cases "data response")
      case None
      with q resp nonempty tc l v show ?thesis
        by (simp add: test_query_def test_query_try_def download_contents_def Let_def)
    next
      case (Some cs)
      show ?thesis
      proof (cases "first_wrong_card [cr_name c0, cr_name c1] cs")
        case (Inl err)
        then have "first_wrong_card [cr_name c0, cr_name c1] cs \<noteq> Inr None" by simp
        then have n: "\<not> (\<forall>c \<in> set cs. \<exists>nm. rc_name c = Some nm \<and> nm \<in> {cr_name c0, cr_name c1})"
          by (simp add: first_wrong_card_None)
        from Inl q resp nonempty tc l v Some have "snd (test_query w user_name scryfall_url) \<noteq> Inr query"
          by (cases err) (simp_all add: test_query_def test_query_try_def download_contents_def Let_def)
        with n Some show ?thesis by simp
      next
        case (Inr r)
        show ?thesis
        proof (cases r)
          case None
          with Inr have ok: "\<forall>c \<in> set cs. \<exists>nm. rc_name c = Some nm \<and> nm \<in> {cr_name c0, cr_name c1}"
            by (simp add: first_wrong_card_None)
          from None Inr q resp nonempty tc l v Some
          have "snd (test_query w user_name scryfall_url) = Inr query \<longleftrightarrow> \<not> str_in ''or'' (lower query)"
            by (cases "str_in ''or'' (lower query)")
              (simp_all add: test_query_def test_query_try_def download_contents_def Let_def)
          with ok tc Some show ?thesis by simp
        next
          case (Some nm)
          with Inr have "first_wrong_card [cr_name c0, cr_name c1] cs \<noteq> Inr None" by simp
          then have n: "\<not> (\<forall>c \<in> set cs. \<exists>nm. rc_name c = Some nm \<and> nm \<in> {cr_name c0, cr_name c1})"
            by (simp add: first_wrong_card_None)
          from Some Inr q resp nonempty tc l v \<open>data response = Some cs\<close>
          have "snd (test_query w user_name scryfall_url) \<noteq> Inr query"
            by (simp add: test_query_def test_query_try_def download_contents_def Let_def)
          with n \<open>data response = Some cs\<close> show ?thesis by simp
        qed
      qed
    qed
  qed
qed

text \<open>
  C9.  A query whose lowercased text has \<open>or\<close> anywhere inside it is never accepted:
  whenever \<open>test_query\<close> returns, it returns the empty string.  It does return the
  empty string, and raises nothing, when the search finds exactly the two cards of the
  latest contest.
\<close>

theorem test_query_rejects_or_substring:
  assumes q: "parse_qs_query w scryfall_url ''q'' = Some (query # others)"
    and or: "str_in ''or'' (lower query)"
  shows "(\<forall>r. snd (test_query w user_name scryfall_url) = Inr r \<longrightarrow> r = '''') \<and>
    (\<forall>r cs m e a b.
       http_get_json w (''https://api.scryfall.com/cards/search?q='' @ query) = Inr r \<longrightarrow>
       total_cards r = Some 2 \<longrightarrow> data r = Some cs \<longrightarrow>
       map rc_name cs = [Some a, Some b] \<or> map rc_name cs = [Some b, Some a] \<longrightarrow>
       fs w (TWEET_DATABASE w) = Some (JsonFile (DictDoc m)) \<longrightarrow> fmdom m \<noteq> {||} \<longrightarrow>
       fmlookup m (fMax (fmdom m)) = Some (Contest e) \<longrightarrow>
       map cr_name (cards e) = [a, b] \<longrightarrow>
       snd (test_query w user_name scryfall_url) = Inr '''')"
proof (intro conjI allI impI)
  fix r
  assume "snd (test_query w user_name scryfall_url) = Inr r"
  with q or show "r = ''''"
    by (auto simp: test_query_def test_query_try_def Let_def
      split: option.splits list.splits sum.splits prod.splits py_error.splits)
next
  fix r cs m e a b
  assume h: "http_get_json w (''https://api.scryfall.com/cards/search?q='' @ query) = Inr r"
    "total_cards r = Some 2" "data r = Some cs"
    "map rc_name cs = [Some a, Some b] \<or> map rc_name cs = [Some b, Some a]"
    "fs w (TWEET_DATABASE w) = Some (JsonFile (DictDoc m))" "fmdom m \<noteq> {||}"
    "fmlookup m (fMax (fmdom m)) = Some (Contest e)" "map cr_name (cards e) = [a, b]"
  from h(8) obtain c0 c1 where ce: "cards e = [c0, c1]" "cr_name c0 = a" "cr_name c1 = b"
    by auto
  from h(4) have fw: "first_wrong_card [a, b] cs = Inr None"
    by (auto simp: first_wrong_card_None)
  show "snd (test_query w user_name scryfall_url) = Inr ''''"
    using q or h(1,2,3,5,6,7) ce fw
    by (simp add: test_query_def test_query_try_def download_contents_def load_json_db_def
        max_key_of_def valid_cards_of_def)
qed

theorem test_query_rejects_or_substring_witness:
  "str_in ''or'' (lower or_query) \<and>
   snd (test_query (search_world or_query two_card_response) ''bob'' (search_url or_query)) = Inr ''''"
proof -
  let ?w = "search_world or_query two_card_response"
  have h1: "parse_qs_query ?w (search_url or_query) ''q'' = Some (or_query # [])"
    by (simp add: search_world_def)
  have h2: "str_in ''or'' (lower or_query)"
    unfolding or_query_def by code_simp
  have "snd (test_query ?w ''bob'' (search_url or_query)) = Inr ''''"
  proof (rule test_query_rejects_or_substring [OF h1 h2, THEN conjunct2, rule_format])
    show "http_get_json ?w (''https://api.scryfall.com/cards/search?q='' @ or_query)
            = Inr two_card_response"
      by (simp add: search_world_def)
    show "total_cards two_card_response = Some 2"
      by (simp add: two_card_response_def)
    show "data two_card_response
            = Some [\<lparr>rc_name = Some ''Counterspell''\<rparr>, \<lparr>rc_name = Some ''Lightning Bolt''\<rparr>]"
      by (simp add: two_card_response_def)
    show "map rc_name [\<lparr>rc_name = Some ''Counterspell''\<rparr>, \<lparr>rc_name = Some ''Lightning Bolt''\<rparr>]
            = [Some ''Lightning Bolt'', Some ''Counterspell''] \<or>
          map rc_name [\<lparr>rc_name = Some ''Counterspell''\<rparr>, \<lparr>rc_name = Some ''Lightning Bolt''\<rparr>]
            = [Some ''Counterspell'', Some ''Lightning Bolt'']"
      by simp
    show "fs ?w (TWEET_DATABASE ?w) = Some (JsonFile (DictDoc example_db))"
      by (simp add: search_world_def)
    show "fmdom example_db \<noteq> {||}"
      by (simp add: example_db_def)
    show "fmlookup example_db (fMax (fmdom example_db)) = Some (Contest example_entry)"
      by (simp add: fMax_example_db) (simp add: example_db_def)
    show "map cr_name (cards example_entry) = [''Lightning Bolt'', ''Counterspell'']"
      by (simp add: example_entry_def)
  qed
  with h2 show ?thesis by simp
qed

text \<open>
  C1.  The card count is logged and nothing more: a reply whose search finds one card,
  one of the two of the contest, is accepted, with the mismatch in the log.
\<close>

theorem test_query_accepts_one_card:
  "test_query (search_world one_card_query one_card_response) ''bob'' (search_url one_card_query) =
     ([(DEBUG, ''Downloaded URL {0}'', [S ''https://api.scryfall.com/cards/search?q=!Counterspell'']),
       (INFO, ''{0} result has wrong number of cards: {1}'', [S ''bob'', I 1]),
       (INFO, ''{0} was correct! [ {1} ] ({2})'', [S ''bob'', S ''!Counterspell'', I 13])],
      Inr ''!Counterspell'')"
proof -
  have no_or: "\<not> str_in ''or'' (lower ''!Counterspell'')"
    by code_simp
  have db: "fmlookup example_db ''2018-06-02_12:00:00'' = Some (Contest example_entry)"
    "fmdom example_db \<noteq> {||}"
    by (simp_all add: example_db_def)
  show ?thesis
    using no_or db
    by (simp add: test_query_def test_query_try_def download_contents_def load_json_db_def
        max_key_of_def valid_cards_of_def search_world_def search_url_def one_card_query_def
        one_card_response_def fMax_example_db example_entry_def)
qed

text \<open>The same holds for a count of three, where the cards found repeat the two.\<close>

lemma test_query_accepts_three_cards:
  "snd (test_query (search_world three_card_query three_card_response) ''bob''
          (search_url three_card_query)) = Inr three_card_query"
proof -
  have no_or: "\<not> str_in ''or'' (lower three_card_query)"
    unfolding three_card_query_def by code_simp
  have db: "fmlookup example_db ''2018-06-02_12:00:00'' = Some (Contest example_entry)"
    "fmdom example_db \<noteq> {||}"
    by (simp_all add: example_db_def)
  show ?thesis
    using no_or db
    by (simp add: test_query_def test_query_try_def download_contents_def load_json_db_def
        max_key_of_def valid_cards_of_def search_world_def three_card_response_def
        fMax_example_db example_entry_def)
qed

subsection \<open>The JSON log\<close>

text \<open>
  C10.  The key of a new entry is the wall clock to the second.  Where the dict on disk
  already has an entry under that key, the write replaces it: the file read back has the
  new entry under the key, and the same keys, hence as many entries, as before.
\<close>

theorem write_same_second_replaces:
  assumes "f file_name = Some (JsonFile (DictDoc feeds))"
    and "strftime_now w |\<in>| fmdom feeds"
  shows "write_then_load w f file_name entry
           = Inr (DictDoc (fmupd (strftime_now w) entry feeds)) \<and>
         fmlookup (fmupd (strftime_now w) entry feeds) (strftime_now w) = Some entry \<and>
         fmdom (fmupd (strftime_now w) entry feeds) = fmdom feeds \<and>
         fcard (fmdom (fmupd (strftime_now w) entry feeds)) = fcard (fmdom feeds)"
proof -
  have "finsert (strftime_now w) (fmdom feeds) = fmdom feeds"
    using assms(2) by auto
  then show ?thesis
    using assms(1) by (simp add: write_then_load_def write_to_json_db_def load_json_db_def)
qed

theorem write_same_second_replaces_witness:
  "fs same_second_world ''../tweets.json'' = Some (JsonFile (DictDoc example_db)) \<and>
   strftime_now same_second_world |\<in>| fmdom example_db \<and>
   write_then_load same_second_world (fs same_second_world) ''../tweets.json'' (Contest older_entry)
     = Inr (DictDoc (fmupd ''2018-06-02_12:00:00'' (Contest older_entry) example_db)) \<and>
   fcard (fmdom (fmupd ''2018-06-02_12:00:00'' (Contest older_entry) example_db))
     = fcard (fmdom example_db)"
proof -
  have h1: "fs same_second_world ''../tweets.json'' = Some (JsonFile (DictDoc example_db))"
    by (simp add: same_second_world_def search_world_def)
  have h2: "strftime_now same_second_world |\<in>| fmdom example_db"
    by (simp add: same_second_world_def search_world_def example_db_def)
  have k: "strftime_now same_second_world = ''2018-06-02_12:00:00''"
    by (simp add: same_second_world_def search_world_def)
  from write_same_second_replaces [where f = "fs same_second_world"
      and file_name = "''../tweets.json''" and feeds = example_db and w = same_second_world
      and entry = "Contest older_entry"] h1 h2
  show ?thesis
    by (simp add: k)
qed

text \<open>
  C3, as stated, fails: the entry written in the second of the latest key takes the place
  of the entry that was there, which the file read back no longer has.
\<close>

theorem write_then_load_loses_prior_entry:
  "write_then_load same_second_world (fs same_second_world) ''../tweets.json'' (Contest older_entry)
     = Inr (DictDoc (fmupd ''2018-06-02_12:00:00'' (Contest older_entry) example_db)) \<and>
   fmlookup example_db ''2018-06-02_12:00:00'' = Some (Contest example_entry) \<and>
   fmlookup (fmupd ''2018-06-02_12:00:00'' (Contest older_entry) example_db) ''2018-06-02_12:00:00''
     \<noteq> Some (Contest example_entry)"
  by (simp add: write_then_load_def write_to_json_db_def load_json_db_def same_second_world_def
      search_world_def example_db_def example_entry_def older_entry_def)

text \<open>
  C3, amended.  Writing an entry to a dict on disk and reading the file back gives the
  dict with the new entry under the timestamp key and every entry under another key
  unchanged; all prior entries are there unchanged when the timestamp key is new.
\<close>

theorem write_then_load_roundtrip:
  assumes "f file_name = Some (JsonFile (DictDoc feeds))"
  shows "write_then_load w f file_name entry
           = Inr (DictDoc (fmupd (strftime_now w) entry feeds)) \<and>
         fmlookup (fmupd (strftime_now w) entry feeds) (strftime_now w) = Some entry \<and>
         (\<forall>k. k \<noteq> strftime_now w \<longrightarrow>
              fmlookup (fmupd (strftime_now w) entry feeds) k = fmlookup feeds k) \<and>
         (strftime_now w |\<notin>| fmdom feeds \<longrightarrow>
            (\<forall>k v. fmlookup feeds k = Some v \<longrightarrow>
                   fmlookup (fmupd (strftime_now w) entry feeds) k = Some v))"
  using assms
  by (auto simp: write_then_load_def write_to_json_db_def load_json_db_def fmlookup_dom_iff)

theorem write_then_load_roundtrip_witness:
  "fs (search_world or_query two_card_response) ''../tweets.json''
     = Some (JsonFile (DictDoc example_db)) \<and>
   strftime_now (search_world or_query two_card_response) |\<notin>| fmdom example_db \<and>
   write_then_load (search_world or_query two_card_response)
       (fs (search_world or_query two_card_response)) ''../tweets.json'' (Contest older_entry)
     = Inr (DictDoc (fmupd ''2018-06-02_18:00:00'' (Contest older_entry) example_db)) \<and>
   fmlookup (fmupd ''2018-06-02_18:00:00'' (Contest older_entry) example_db) ''2018-06-02_18:00:00''
     = Some (Contest older_entry) \<and>
   fmlookup (fmupd ''2018-06-02_18:00:00'' (Contest older_entry) example_db) ''2018-06-02_12:00:00''
     = Some (Contest example_entry) \<and>
   fmlookup (fmupd ''2018-06-02_18:00:00'' (Contest older_entry) example_db) ''2018-06-01_12:00:00''
     = Some (Contest older_entry)"
proof -
  let ?w = "search_world or_query two_card_response"
  have h1: "fs ?w ''../tweets.json'' = Some (JsonFile (DictDoc example_db))"
    by (simp add: search_world_def)
  have k: "strftime_now ?w = ''2018-06-02_18:00:00''"
    by (simp add: search_world_def)
  have h2: "strftime_now ?w |\<notin>| fmdom example_db"
    by (simp add: k example_db_def)
  have old: "fmlookup example_db ''2018-06-02_12:00:00'' = Some (Contest example_entry)"
    "fmlookup example_db ''2018-06-01_12:00:00'' = Some (Contest older_entry)"
    by (simp_all add: example_db_def)
  from write_then_load_roundtrip [where f = "fs ?w" and file_name = "''../tweets.json''"
      and feeds = example_db and w = ?w and entry = "Contest older_entry"] h1 h2 old
  show ?thesis
    by (simp add: k)
qed

subsection \<open>The liveness check\<close>

text \<open>
  C4.  Without a log file, or with a log file that holds no entry, the check answers
  \<open>False\<close>; it logs one warning and nothing else (the results scan would log
  \<open>CONTEST OVER -- RESULTS\<close>), and leaves the file system as it was.
\<close>

theorem is_active_empty_or_missing:
  assumes "fs w (TWEET_DATABASE w) = None \<or>
           fs w (TWEET_DATABASE w) = Some (JsonFile (DictDoc fmempty))"
  shows "is_active_contest_already w
           = (fs w, [(WARNING, ''Database was empty, continuing'', [])], Inr False)"
  using assms
  by (auto simp: is_active_contest_already_def load_json_db_def max_key_of_def)

theorem is_active_empty_or_missing_witness:
  "fs missing_log_world (TWEET_DATABASE missing_log_world) = None \<and>
   is_active_contest_already missing_log_world
     = (Map.empty, [(WARNING, ''Database was empty, continuing'', [])], Inr False) \<and>
   fs empty_log_world (TWEET_DATABASE empty_log_world) = Some (JsonFile (DictDoc fmempty)) \<and>
   is_active_contest_already empty_log_world
     = (fs empty_log_world, [(WARNING, ''Database was empty, continuing'', [])], Inr False)"
proof -
  have h1: "fs missing_log_world (TWEET_DATABASE missing_log_world) = None"
    by (simp add: missing_log_world_def search_world_def)
  have h2: "fs empty_log_world (TWEET_DATABASE empty_log_world)
              = Some (JsonFile (DictDoc fmempty))"
    by (simp add: empty_log_world_def search_world_def)
  have e: "fs missing_log_world = Map.empty"
    by (simp add: missing_log_world_def)
  from is_active_empty_or_missing [of missing_log_world]
    is_active_empty_or_missing [of empty_log_world] h1 h2 e
  show ?thesis
    by simp
qed

lemma example_db_not_empty: "fmdom example_db \<noteq> {||}" by (simp add: example_db_def)

text \<open>
  C2.  With a log whose latest key \<open>strptime\<close> reads as \<open>start\<close>, the check answers
  \<open>True\<close> exactly when less than 24 hours lie between \<open>start\<close> and the clock.  From
  24 hours on it runs the results scan and writes the results; its answer is then
  \<open>False\<close>, unless one of the two raises, which it passes on.
\<close>

theorem is_active_iff_within_one_day:
  assumes db: "fs w (TWEET_DATABASE w) = Some (JsonFile (DictDoc m))"
    and ne: "fmdom m \<noteq> {||}"
    and start: "strptime w (fMax (fmdom m)) = Some start"
    and range: "start + one_day \<le> datetime_max"
  shows "(snd (snd (is_active_contest_already w)) = Inr True \<longleftrightarrow> now w - start < one_day) \<and>
         (now w - start < one_day \<longrightarrow>
            is_active_contest_already w =
              (fs w, [(WARNING, ''Current contest from {0} still active'', [S (fMax (fmdom m))])], Inr True)) \<and>
         (one_day \<le> now w - start \<longrightarrow>
            snd (snd (is_active_contest_already w)) =
              (case get_results w of
                 (l, Inl e) \<Rightarrow> Inl e
               | (l, Inr results) \<Rightarrow>
                   (case write_results w (fs w) results of Inl e \<Rightarrow> Inl e | Inr f' \<Rightarrow> Inr False)))"
proof -
  have key: "load_json_db (fs w) (TWEET_DATABASE w) = Inr (DictDoc m)"
    "max_key_of (DictDoc m) = Inr (fMax (fmdom m))"
    using db ne by (simp_all add: load_json_db_def max_key_of_def)
  show ?thesis
  proof (cases "now w - start < one_day")
    case True
    then have "start + one_day > now w" by simp
    with key start range True show ?thesis
      by (simp add: is_active_contest_already_def)
  next
    case False
    then have nle: "\<not> start + one_day > now w" by simp
    have "snd (snd (is_active_contest_already w)) =
              (case get_results w of
                 (l, Inl e) \<Rightarrow> Inl e
               | (l, Inr results) \<Rightarrow>
                   (case write_results w (fs w) results of Inl e \<Rightarrow> Inl e | Inr f' \<Rightarrow> Inr False))"
      using key start range nle
      by (simp add: is_active_contest_already_def split: prod.splits sum.splits)
    moreover from this have "snd (snd (is_active_contest_already w)) \<noteq> Inr True"
      by (simp split: prod.splits sum.splits)
    ultimately show ?thesis using False by simp
  qed
qed

theorem is_active_iff_within_one_day_witness:
  "now (search_world or_query two_card_response) - (736846 * 86400000000 + 43200000000) < one_day \<and>
   snd (snd (is_active_contest_already (search_world or_query two_card_response))) = Inr True \<and>
   one_day \<le> now late_world - (736846 * 86400000000 + 43200000000) \<and>
   snd (snd (is_active_contest_already late_world)) = Inr False"
proof -
  let ?w = "search_world or_query two_card_response"
  let ?s = "736846 * 86400000000 + 43200000000 :: int"
  have a1: "fs ?w (TWEET_DATABASE ?w) = Some (JsonFile (DictDoc example_db))"
    by (simp add: search_world_def)
  have a3: "strptime ?w (fMax (fmdom example_db)) = Some ?s"
    by (simp add: search_world_def fMax_example_db example_strptime_def)
  have a4: "?s + one_day \<le> datetime_max"
    by (simp add: one_day_def datetime_max_def)
  have a5: "now ?w - ?s < one_day"
    by (simp add: search_world_def one_day_def)
  have b1: "fs late_world (TWEET_DATABASE late_world) = Some (JsonFile (DictDoc example_db))"
    by (simp add: late_world_def search_world_def)
  have b3: "strptime late_world (fMax (fmdom example_db)) = Some ?s"
    by (simp add: late_world_def search_world_def fMax_example_db example_strptime_def)
  have b5: "one_day \<le> now late_world - ?s"
    by (simp add: late_world_def search_world_def one_day_def)
  have g: "get_results late_world = ([(INFO, ''CONTEST OVER -- RESULTS'', [])], Inr [])"
    by (simp add: get_results_def late_world_def search_world_def)
  have wr: "\<exists>f'. write_results late_world (fs late_world) [] = Inr f'"
    by (simp add: write_results_def load_json_db_def b1 max_key_of_def example_db_not_empty fMax_example_db
        write_to_json_db_def) (simp add: late_world_def search_world_def)
  from is_active_iff_within_one_day [OF a1 example_db_not_empty a3 a4] a5
  have t: "snd (snd (is_active_contest_already ?w)) = Inr True"
    by simp
  from is_active_iff_within_one_day [OF b1 example_db_not_empty b3 a4] b5 g wr
  have f: "snd (snd (is_active_contest_already late_world)) = Inr False"
    by auto
  from t f a5 b5 show ?thesis by simp
qed

subsection \<open>Images and posting\<close>

text \<open>
  C6.  Where the path holds no readable image (no file, or a file that is no image),
  \<open>resize_image\<close> logs one error and returns with the file system as it was; it
  raises nothing.
\<close>

theorem resize_image_unreadable:
  assumes "\<forall>im. f url_to_open \<noteq> Some (ImageFile im)"
  shows "resize_image w f url_to_open
           = (f, [(ERROR, ''Cannot create thumbnail for {0}'', [S url_to_open])])"
  using assms
  by (auto simp: resize_image_def split: option.splits fs_file.splits)

theorem resize_image_unreadable_witness:
  "(\<forall>im. fs post_world ''../cards/notes.png'' \<noteq> Some (ImageFile im)) \<and>
   resize_image post_world (fs post_world) ''../cards/notes.png''
     = (fs post_world, [(ERROR, ''Cannot create thumbnail for {0}'', [S ''../cards/notes.png''])]) \<and>
   (\<forall>im. fs post_world ''../cards/gone.png'' \<noteq> Some (ImageFile im)) \<and>
   resize_image post_world (fs post_world) ''../cards/gone.png''
     = (fs post_world, [(ERROR, ''Cannot create thumbnail for {0}'', [S ''../cards/gone.png''])])"
proof -
  have h1: "\<forall>im. fs post_world ''../cards/notes.png'' \<noteq> Some (ImageFile im)"
    by (simp add: post_world_def merged_path_def)
  have h2: "\<forall>im. fs post_world ''../cards/gone.png'' \<noteq> Some (ImageFile im)"
    by (simp add: post_world_def merged_path_def)
  from resize_image_unreadable [where f = "fs post_world" and url_to_open = "''../cards/notes.png''" and w = post_world]
    resize_image_unreadable [where f = "fs post_world" and url_to_open = "''../cards/gone.png''" and w = post_world] h1 h2
  show ?thesis
    by blast
qed

text \<open>
  What \<open>send_tweet\<close> returns: \<open>-1\<close> when it is given no image path and when the
  request raises \<^verbatim>\<open>UnicodeDecodeError\<close>; the identifier of the new post when the request
  answers with one; every other exception of the request, and the
  \<^verbatim>\<open>FileNotFoundError\<close> of \<^verbatim>\<open>open\<close>, is raised to the caller.
\<close>

lemma send_tweet_results:
  "(url_to_media = None \<longrightarrow>
      snd (snd (send_tweet w f message_to_tweet url_to_media)) = Inr (IdInt (- 1))) \<and>
   (\<forall>u photo. url_to_media = Some u \<longrightarrow> fst (resize_image w f u) u = Some photo \<longrightarrow>
      twitter_request w message_to_tweet photo = Inl UnicodeDecodeError \<longrightarrow>
      snd (snd (send_tweet w f message_to_tweet url_to_media)) = Inr (IdInt (- 1))) \<and>
   (\<forall>u photo e. url_to_media = Some u \<longrightarrow> fst (resize_image w f u) u = Some photo \<longrightarrow>
      twitter_request w message_to_tweet photo = Inl e \<longrightarrow> e \<noteq> UnicodeDecodeError \<longrightarrow>
      snd (snd (send_tweet w f message_to_tweet url_to_media)) = Inl e) \<and>
   (\<forall>u photo status i. url_to_media = Some u \<longrightarrow> fst (resize_image w f u) u = Some photo \<longrightarrow>
      twitter_request w message_to_tweet photo = Inr status \<longrightarrow> id_str status = Some i \<longrightarrow>
      snd (snd (send_tweet w f message_to_tweet url_to_media)) = Inr (IdStr i)) \<and>
   (\<forall>u. url_to_media = Some u \<longrightarrow> f u = None \<longrightarrow>
      snd (snd (send_tweet w f message_to_tweet url_to_media)) = Inl FileNotFoundError)"
  by (auto simp: send_tweet_def resize_image_def Let_def split: prod.splits option.splits)

lemma send_tweet_examples:
  "snd (snd (send_tweet post_world (fs post_world) ''hello'' None)) = Inr (IdInt (- 1)) \<and>
   snd (snd (send_tweet post_world (fs post_world) undecodable_message (Some merged_path)))
     = Inr (IdInt (- 1)) \<and>
   snd (snd (send_tweet post_world (fs post_world) ''hello'' (Some merged_path)))
     = Inr (IdStr ''1003300858'')"
proof -
  let ?photo = "ImageFile (thumbnail post_world (1024, 512) (merged_image [bolt_image, counterspell_image]))"
  have r: "fst (resize_image post_world (fs post_world) merged_path) merged_path = Some ?photo"
    by (simp add: resize_image_def post_world_def merged_path_def)
  have u: "twitter_request post_world undecodable_message ?photo = Inl UnicodeDecodeError"
    by (simp add: post_world_def)
  have ok: "twitter_request post_world ''hello'' ?photo
              = Inr \<lparr>status_code = 200, id_str = Some ''1003300858''\<rparr>"
    by (simp add: post_world_def undecodable_message_def)
  have 1: "snd (snd (send_tweet post_world (fs post_world) ''hello'' None)) = Inr (IdInt (- 1))"
    using send_tweet_results [where url_to_media = None and w = post_world and f = "fs post_world"
        and message_to_tweet = "''hello''"]
    by simp
  have 2: "snd (snd (send_tweet post_world (fs post_world) undecodable_message (Some merged_path)))
             = Inr (IdInt (- 1))"
    using send_tweet_results [where url_to_media = "Some merged_path" and w = post_world
        and f = "fs post_world" and message_to_tweet = undecodable_message] r u
    by simp
  have 3: "snd (snd (send_tweet post_world (fs post_world) ''hello'' (Some merged_path)))
             = Inr (IdStr ''1003300858'')"
    using send_tweet_results [where url_to_media = "Some merged_path" and w = post_world
        and f = "fs post_world" and message_to_tweet = "''hello''"] r ok
    by simp
  from 1 2 3 show ?thesis by simp
qed

text \<open>
  C5.  With the path of an image that is not there, \<open>send_tweet\<close> does not return
  \<open>-1\<close>: \<open>resize_image\<close> logs the missing image and returns, and the
  \<^verbatim>\<open>open\<close> that follows raises \<^verbatim>\<open>FileNotFoundError\<close>, which no \<^verbatim>\<open>except\<close> clause of
  \<open>send_tweet\<close> catches.
\<close>

theorem send_tweet_missing_image_raises:
  "send_tweet post_world (fs post_world) ''Can you make both of these cards show up?''
     (Some ''../cards/gone.png'') =
     (fs post_world,
      [(DEBUG, ''Tweet to send: {0}'', [S ''Can you make both of these cards show up?'']),
       (ERROR, ''Cannot create thumbnail for {0}'', [S ''../cards/gone.png''])],
      Inl FileNotFoundError)"
proof -
  have gone: "fs post_world ''../cards/gone.png'' = None"
    by (simp add: post_world_def merged_path_def)
  then show ?thesis
    by (simp add: send_tweet_def resize_image_def)
qed

subsection \<open>The results scan\<close>

lemma test_query_stream [simp]:
  "test_query (w\<lparr>tweet_stream := x\<rparr>) = test_query w"
  by (intro ext)
    (simp add: test_query_def test_query_try_def download_contents_def Let_def
      cong: option.case_cong list.case_cong sum.case_cong prod.case_cong if_cong)

lemma urls_loop_stream [simp]:
  "urls_loop (w\<lparr>tweet_stream := x\<rparr>) sn us ve = urls_loop w sn us ve"
  by (induction us arbitrary: ve) simp_all

lemma items_loop_stream [simp]:
  "items_loop (w\<lparr>tweet_stream := x\<rparr>) xs ve = items_loop w xs ve"
proof (induction xs arbitrary: ve)
  case Nil
  show ?case by simp
next
  case (Cons a xs)
  show ?case
    by (simp add: Cons.IH split: option.split prod.split sum.split)
qed




lemma items_loop_append:
  assumes "\<forall>i \<in> set xs. \<not> own_post w i \<and> \<not> rate_limited i"
    and "items_loop w xs ve = (l, Inr ve')"
  shows "items_loop w (xs @ ys) ve = (case items_loop w ys ve' of (l', r) \<Rightarrow> (l @ l', r))"
  using assms
proof (induction xs arbitrary: ve l)
  case Nil
  then show ?case by (simp split: prod.splits)
next
  case (Cons a xs)
  from Cons.prems(1) have rest: "\<forall>i \<in> set xs. \<not> own_post w i \<and> \<not> rate_limited i"
    by simp
  show ?case
  proof (cases "text_field a")
    case None
    note nt = None
    show ?thesis
    proof (cases "message a")
      case None
      with nt Cons.prems(2) have "items_loop w xs ve = (l, Inr ve')" by simp
      from Cons.IH [OF rest this] nt None show ?thesis by simp
    next
      case (Some m)
      with nt Cons.prems(1) have c: "code a \<noteq> Some 88"
        by (simp add: rate_limited_def)
      show ?thesis
      proof (cases "code a")
        case None
        with nt Some Cons.prems(2) show ?thesis by simp
      next
        case (Some c')
        with c have ne: "c' \<noteq> 88" by simp
        with nt \<open>message a = Some m\<close> Some Cons.prems(2)
        have "items_loop w xs ve = (l, Inr ve')" by simp
        from Cons.IH [OF rest this] nt \<open>message a = Some m\<close> Some ne show ?thesis by simp
      qed
    qed
  next
    case (Some t)
    from Cons.prems(1) Some have n: "screen_name a \<noteq> TWEETER_ACCOUNT w"
      by (simp add: own_post_def)
    obtain l1 r1 where u: "urls_loop w (screen_name a) (urls a) ve = (l1, r1)"
      by (cases "urls_loop w (screen_name a) (urls a) ve")
    show ?thesis
    proof (cases r1)
      case (Inl e)
      with Some u Cons.prems(2) show ?thesis by simp
    next
      case (Inr ve1)
      obtain l2 r2 where i: "items_loop w xs ve1 = (l2, r2)"
        by (cases "items_loop w xs ve1")
      from Some u Inr n i Cons.prems(2)
      have r2: "r2 = Inr ve'" and l: "l = (DEBUG, screen_name a @ '': '' @ t, []) # l1 @ l2"
        by simp_all
      from i r2 have "items_loop w xs ve1 = (l2, Inr ve')" by simp
      from Cons.IH [OF rest this] Some u Inr n l show ?thesis
        by (simp split: prod.splits)
    qed
  qed
qed

















subsection \<open>Image composition\<close>

text \<open>Integer scaling: the quotient of a rounded-down division is within one of the exact one.\<close>

lemma one_step_core:
  fixes x y b q :: int
  assumes pos: "0 < x" "0 < y" "0 < b"
    and lo: "q * x \<le> b * y" and hi: "b * y < (q + 1) * x" and q0: "0 \<le> q"
  shows "\<bar>b * y - max q 1 * x\<bar> < x"
proof (cases "q = 0")
  case True
  with hi have "b * y < x" by simp
  moreover from pos have "0 < b * y" by simp
  ultimately show ?thesis using True by simp
next
  case False
  with q0 have "max q 1 = q" by simp
  with lo hi show ?thesis by (simp add: algebra_simps)
qed

lemma two_step_core:
  fixes x y bx by' y1 q :: int
  assumes pos: "0 < x" "0 < y" "0 < bx" "0 < by'" and big: "by' < y1"
    and lo1: "y1 * x \<le> bx * y" and hi1: "bx * y < (y1 + 1) * x"
    and lo2: "q * y1 \<le> bx * by'" and hi2: "bx * by' < (q + 1) * y1" and q1: "1 \<le> q"
  shows "\<bar>q * y - by' * x\<bar> < max x y"
proof -
  from pos big have y1pos: "0 < y1" by simp
  have "q * y1 < bx * y1"
  proof -
    have "bx * by' < bx * y1" using big pos by simp
    with lo2 show ?thesis by simp
  qed
  with y1pos have qlt: "q < bx" by simp
  have a1: "q * (bx * y) < q * ((y1 + 1) * x)"
    using hi1 q1 by (intro mult_strict_left_mono) simp_all
  have a2: "x * (q * y1) \<le> x * (bx * by')"
    using lo2 pos by (intro mult_left_mono) simp_all
  have a3: "x * q < x * bx"
    using qlt pos by simp
  have "bx * (q * y - by' * x) < bx * x"
    using a1 a2 a3 by (simp add: algebra_simps)
  with pos have upper: "q * y - by' * x < x" by simp
  have b1: "x * (bx * by') < x * ((q + 1) * y1)"
    using hi2 pos by (intro mult_strict_left_mono) simp_all
  have b2: "(q + 1) * (y1 * x) \<le> (q + 1) * (bx * y)"
    using lo1 q1 by (intro mult_left_mono) simp_all
  have "bx * (by' * x - q * y) < bx * y"
    using b1 b2 by (simp add: algebra_simps)
  with pos have lower: "by' * x - q * y < y" by simp
  from upper lower show ?thesis by simp
qed

lemma clamp_core:
  fixes x y bx by' y1 :: int
  assumes pos: "0 < x" "0 < y" "0 < bx" "0 < by'"
    and lo1: "y1 * x \<le> bx * y" and small: "bx * by' < y1"
  shows "\<bar>1 * y - by' * x\<bar> < max x y"
proof -
  have "x * (bx * by') < x * y1"
    using small pos by simp
  with lo1 have "bx * (by' * x) < bx * y" by (simp add: algebra_simps)
  with pos have "by' * x < y" by simp
  moreover from pos have "0 < by' * x" by simp
  ultimately show ?thesis by simp
qed

lemma nat_div_bounds:
  fixes a b q :: nat
  assumes "0 < b" "q = a div b"
  shows "int q * int b \<le> int a" "int a < (int q + 1) * int b"
proof -
  have "q * b \<le> a" using assms by simp
  then have "int (q * b) \<le> int a" by (rule of_nat_mono)
  then show "int q * int b \<le> int a" by simp
  have "a < (q + 1) * b"
    using dividend_less_div_times [of b a] assms by (simp add: algebra_simps)
  then have "int a < int ((q + 1) * b)" by (simp only: of_nat_less_iff)
  then show "int a < (int q + 1) * int b" by (simp add: algebra_simps)
qed

lemma scale_le:
  fixes x y b :: nat
  assumes "b < x"
  shows "y * b div x \<le> y"
proof -
  have "y * b div x \<le> y * x div x"
    using assms by (intro div_le_mono mult_le_mono) simp_all
  also have "\<dots> = y" using assms by simp
  finally show ?thesis .
qed

lemma one_step_nat:
  fixes x y b :: nat
  assumes "0 < x" "0 < y" "0 < b"
  shows "\<bar>int b * int y - int (max (y * b div x) 1) * int x\<bar> < int x"
proof -
  define q where "q = y * b div x"
  from nat_div_bounds [OF assms(1) q_def]
  have "int q * int x \<le> int b * int y" "int b * int y < (int q + 1) * int x"
    by (simp_all add: mult.commute)
  from one_step_core [OF _ _ _ this] assms
  have "\<bar>int b * int y - max (int q) 1 * int x\<bar> < int x" by simp
  moreover have "max (int q) 1 = int (max q 1)" by simp
  ultimately show ?thesis by (simp only: q_def)
qed

lemma two_step_nat:
  fixes x y bx by' :: nat
  assumes "0 < x" "0 < y" "0 < bx" "0 < by'" "by' < y * bx div x"
  shows "\<bar>int (max (bx * by' div (y * bx div x)) 1) * int y - int by' * int x\<bar> < int (max x y)"
proof -
  define y1 where "y1 = y * bx div x"
  define q where "q = bx * by' div y1"
  from assms y1_def have y1pos: "0 < y1" "by' < y1" by simp_all
  from nat_div_bounds [OF assms(1) y1_def]
  have s1: "int y1 * int x \<le> int bx * int y" "int bx * int y < (int y1 + 1) * int x"
    by (simp_all add: mult.commute)
  from nat_div_bounds [OF y1pos(1) q_def]
  have s2: "int q * int y1 \<le> int bx * int by'" "int bx * int by' < (int q + 1) * int y1"
    by simp_all
  have "\<bar>int (max q 1) * int y - int by' * int x\<bar> < max (int x) (int y)"
  proof (cases "q = 0")
    case True
    with s2(2) have "int bx * int by' < int y1" by simp
    from clamp_core [OF _ _ _ _ s1(1) this] assms True show ?thesis by simp
  next
    case False
    then have m: "max q 1 = q" and "1 \<le> int q" by simp_all
    from two_step_core [OF _ _ _ _ _ s1 s2 this(2)] assms y1pos
    have "\<bar>int q * int y - int by' * int x\<bar> < max (int x) (int y)" by simp
    then show ?thesis unfolding m .
  qed
  moreover have "max (int x) (int y) = int (max x y)" by simp
  ultimately show ?thesis by (simp only: q_def y1_def)
qed

lemma two_step_fits:
  fixes x y bx by' :: nat
  assumes "0 < bx" "by' < y1"
  shows "max (bx * by' div y1) 1 \<le> bx"
proof -
  have "bx * by' div y1 \<le> bx * y1 div y1"
    using assms by (intro div_le_mono mult_le_mono) simp_all
  also have "\<dots> = bx" using assms by simp
  finally show ?thesis using assms by simp
qed

lemma paste_size [simp]:
  "width (paste c im off) = width c" "height (paste c im off) = height c"
  by (simp_all add: paste_def)

lemma paste_all_size [simp]:
  "width (paste_all c off ims) = width c" "height (paste_all c off ims) = height c"
  by (induction ims arbitrary: c off) simp_all

lemma paste_all_left:
  "x < off \<Longrightarrow> pixel (paste_all c off ims) x y = pixel c x y"
  by (induction ims arbitrary: c off) (simp_all add: paste_def)

lemma paste_all_pixel:
  assumes "i < length ims" "x < width (ims ! i)" "y < height (ims ! i)"
  shows "pixel (paste_all c off ims) (off + sum_list (map width (take i ims)) + x) y
           = pixel (ims ! i) x y"
  using assms
proof (induction ims arbitrary: c off i)
  case Nil
  then show ?case by simp
next
  case (Cons im ims)
  show ?case
  proof (cases i)
    case 0
    with Cons.prems show ?thesis
      by (simp add: paste_all_left paste_def)
  next
    case (Suc j)
    with Cons.prems have "j < length ims" "x < width (ims ! j)" "y < height (ims ! j)"
      by simp_all
    from Cons.IH [OF this, of "paste c im off" "off + width im"] Suc show ?thesis
      by (simp add: add.assoc)
  qed
qed

lemma max_list_Max: "hs \<noteq> [] \<Longrightarrow> max_list hs = Max (set hs)"
proof (induction hs)
  case Nil
  then show ?case by simp
next
  case (Cons h hs)
  then show ?case
    by (cases hs) (simp_all add: max.commute)
qed

lemma merged_image_size:
  "width (merged_image ims) = sum_list (map width ims)"
  "height (merged_image ims) = max_list (map height ims)"
  by (simp_all add: merged_image_def new_image_def)

lemma merged_image_pixel:
  assumes "i < length ims" "x < width (ims ! i)" "y < height (ims ! i)"
  shows "pixel (merged_image ims) (sum_list (map width (take i ims)) + x) y = pixel (ims ! i) x y"
  using paste_all_pixel [OF assms, of _ 0] by (simp add: merged_image_def)

lemma thumbnail_size_within:
  "x \<le> bx \<Longrightarrow> y \<le> by' \<Longrightarrow> thumbnail_size (bx, by') (x, y) = (x, y)"
  by (simp add: thumbnail_size_def)

lemma thumbnail_size_fits:
  assumes "0 < bx" "0 < by'" "0 < x" "0 < y"
  shows "fst (thumbnail_size (bx, by') (x, y)) \<le> bx \<and> snd (thumbnail_size (bx, by') (x, y)) \<le> by'"
proof (cases "bx < x")
  case True
  show ?thesis
  proof (cases "by' < max (y * bx div x) 1")
    case big: True
    from two_step_fits [OF assms(1) big] True big show ?thesis
      by (simp add: thumbnail_size_def Let_def)
  next
    case False
    then have "max (y * bx div x) 1 \<le> by'" by (simp add: not_less)
    with True False show ?thesis
      by (simp add: thumbnail_size_def Let_def)
  qed
next
  case False
  show ?thesis
  proof (cases "by' < y")
    case True
    from scale_le [OF True, of x] have "x * by' div y \<le> x" .
    with False True assms show ?thesis
      by (simp add: thumbnail_size_def Let_def)
  next
    case nb: False
    with False show ?thesis
      by (simp add: thumbnail_size_def Let_def)
  qed
qed

lemma thumbnail_size_shrinks:
  assumes "0 < bx" "0 < by'" "0 < x" "0 < y"
  shows "fst (thumbnail_size (bx, by') (x, y)) \<le> x \<and> snd (thumbnail_size (bx, by') (x, y)) \<le> y"
proof (cases "bx < x")
  case True
  from scale_le [OF True, of y] have y1: "max (y * bx div x) 1 \<le> y"
    using assms by simp
  show ?thesis
  proof (cases "by' < max (y * bx div x) 1")
    case big: True
    from big y1 have "by' < y" by (rule less_le_trans)
    with two_step_fits [OF assms(1) big] True big show ?thesis
      by (simp add: thumbnail_size_def Let_def)
  next
    case False
    with True y1 show ?thesis
      by (simp add: thumbnail_size_def Let_def)
  qed
next
  case False
  show ?thesis
  proof (cases "by' < y")
    case True
    from scale_le [OF True, of x] have "x * by' div y \<le> x" .
    with False True assms show ?thesis
      by (simp add: thumbnail_size_def Let_def)
  next
    case nb: False
    with False show ?thesis
      by (simp add: thumbnail_size_def Let_def)
  qed
qed

lemma thumbnail_size_pos:
  assumes "0 < bx" "0 < by'" "0 < x" "0 < y"
  shows "0 < fst (thumbnail_size (bx, by') (x, y)) \<and> 0 < snd (thumbnail_size (bx, by') (x, y))"
  using assms by (simp add: thumbnail_size_def Let_def max_def)

lemma thumbnail_size_aspect:
  assumes "0 < bx" "0 < by'" "0 < x" "0 < y"
  shows "\<bar>int (fst (thumbnail_size (bx, by') (x, y))) * int y
          - int (snd (thumbnail_size (bx, by') (x, y))) * int x\<bar> < int (max x y)"
proof (cases "bx < x")
  case True
  show ?thesis
  proof (cases "by' < max (y * bx div x) 1")
    case big: True
    with assms have q: "by' < y * bx div x" and m: "max (y * bx div x) (Suc 0) = y * bx div x"
      by (simp_all add: max_def split: if_splits)
    from True q have ts: "thumbnail_size (bx, by') (x, y)
        = (max (bx * by' div (y * bx div x)) 1, by')"
      by (simp add: thumbnail_size_def Let_def m)
    from two_step_nat [OF assms(3,4,1,2) q] show ?thesis
      unfolding ts by simp
  next
    case False
    with True have ts: "thumbnail_size (bx, by') (x, y) = (bx, max (y * bx div x) 1)"
      by (simp add: thumbnail_size_def Let_def)
    from one_step_nat [OF assms(3,4,1)]
    have "\<bar>int bx * int y - int (max (y * bx div x) 1) * int x\<bar> < int x" .
    then show ?thesis unfolding ts by simp
  qed
next
  case False
  show ?thesis
  proof (cases "by' < y")
    case True
    with False have ts: "thumbnail_size (bx, by') (x, y) = (max (x * by' div y) 1, by')"
      by (simp add: thumbnail_size_def Let_def)
    from one_step_nat [OF assms(4,3,2)]
    have "\<bar>int by' * int x - int (max (x * by' div y) 1) * int y\<bar> < int y" .
    then have "\<bar>int (max (x * by' div y) 1) * int y - int by' * int x\<bar> < int y"
      by (simp only: abs_minus_commute)
    then show ?thesis unfolding ts by simp
  next
    case nb: False
    with False have ts: "thumbnail_size (bx, by') (x, y) = (x, y)"
      by (simp add: thumbnail_size_def Let_def)
    from assms show ?thesis unfolding ts by (simp add: mult.commute)
  qed
qed

lemma sum_widths_pos:
  "ims \<noteq> [] \<Longrightarrow> \<forall>im \<in> set ims. 0 < width im \<Longrightarrow> 0 < sum_list (map width ims)"
  by (cases ims) simp_all

lemma max_heights_pos:
  "ims \<noteq> [] \<Longrightarrow> \<forall>im \<in> set ims. 0 < height im \<Longrightarrow> 0 < max_list (map height ims)"
  by (cases ims) (simp_all add: max_def)

lemma thumbnail_dims:
  "width (thumbnail w sz im) = fst (thumbnail_size sz (width im, height im))"
  "height (thumbnail w sz im) = snd (thumbnail_size sz (width im, height im))"
  by (simp_all add: thumbnail_def Let_def prod_eq_iff)

lemma thumbnail_within:
  "width im \<le> bx \<Longrightarrow> height im \<le> by' \<Longrightarrow> thumbnail w (bx, by') im = im"
  by (simp add: thumbnail_def thumbnail_size_within)

lemma open_all_post_world:
  "open_all (fs post_world) (glob_png post_world) = Inr [bolt_image, counterspell_image]"
  by (simp add: post_world_def merged_path_def)

lemma thumbnail_size_example: "thumbnail_size (1024, 512) (1490, 1040) = (734, 512)"
  by (simp add: thumbnail_size_def Let_def)

text \<open>
  C7.  \<open>merge_card_images\<close> saves a canvas as wide as the widths of the globbed
  images together and as high as the highest of them, each image pasted at the top, to
  the right of those before it.  \<open>resize_image\<close> then puts in its place the thumbnail
  for the budget of 1024 by 512 pixels: the canvas itself when it is within the budget,
  otherwise an image within the budget, no larger than the canvas in either direction,
  whose sides are in the proportion of the canvas's sides up to the rounding to whole
  pixels.
\<close>

theorem merge_then_resize:
  assumes opened: "open_all f (glob_png w) = Inr images"
    and ne: "images \<noteq> []"
    and two: "cs = c0 # c1 # others"
    and pos: "\<forall>im \<in> set images. 0 < width im \<and> 0 < height im"
  shows
    "let save_url = TEMP_CARD_DIR w @ ''/'' @ replace_slashes (sc_name c0) @ ''-'' @
                    replace_slashes (sc_name c1) @ ''.png'';
         merged = merged_image images;
         final = thumbnail w (1024, 512) merged
     in merge_card_images w f cs =
          (f(save_url \<mapsto> ImageFile merged),
           [(DEBUG, ''Saved merged image to {0}'', [S save_url])], Inr save_url) \<and>
        width merged = sum_list (map width images) \<and>
        height merged = Max (set (map height images)) \<and>
        (\<forall>i x y. i < length images \<longrightarrow> x < width (images ! i) \<longrightarrow> y < height (images ! i) \<longrightarrow>
           pixel merged (sum_list (map width (take i images)) + x) y = pixel (images ! i) x y) \<and>
        resize_image w (f(save_url \<mapsto> ImageFile merged)) save_url =
          (f(save_url \<mapsto> ImageFile final), []) \<and>
        (width merged \<le> 1024 \<and> height merged \<le> 512 \<longrightarrow> final = merged) \<and>
        width final \<le> 1024 \<and> height final \<le> 512 \<and>
        width final \<le> width merged \<and> height final \<le> height merged \<and>
        0 < width final \<and> 0 < height final \<and>
        \<bar>int (width final) * int (height merged) - int (height final) * int (width merged)\<bar>
          < int (max (width merged) (height merged))"
proof -
  define save_url where "save_url = TEMP_CARD_DIR w @ ''/'' @ replace_slashes (sc_name c0) @ ''-'' @
                    replace_slashes (sc_name c1) @ ''.png''"
  define merged where "merged = merged_image images"
  define final where "final = thumbnail w (1024, 512) merged"
  have m: "merge_card_images w f cs =
          (f(save_url \<mapsto> ImageFile merged),
           [(DEBUG, ''Saved merged image to {0}'', [S save_url])], Inr save_url)"
    using opened ne two by (simp add: merge_card_images_def Let_def save_url_def merged_def)
  have wd: "width merged = sum_list (map width images)"
    by (simp add: merged_def merged_image_size)
  have ht: "height merged = Max (set (map height images))"
    using ne by (simp add: merged_def merged_image_size max_list_Max)
  have px: "\<forall>i x y. i < length images \<longrightarrow> x < width (images ! i) \<longrightarrow> y < height (images ! i) \<longrightarrow>
           pixel merged (sum_list (map width (take i images)) + x) y = pixel (images ! i) x y"
    by (simp add: merged_def merged_image_pixel)
  have rs: "resize_image w (f(save_url \<mapsto> ImageFile merged)) save_url =
          (f(save_url \<mapsto> ImageFile final), [])"
    by (simp add: resize_image_def final_def)
  have wpos: "0 < width merged"
    using sum_widths_pos [OF ne] pos by (simp add: merged_def merged_image_size)
  have hpos: "0 < height merged"
    using max_heights_pos [OF ne] pos by (simp add: merged_def merged_image_size)
  have dims: "width final = fst (thumbnail_size (1024, 512) (width merged, height merged))"
    "height final = snd (thumbnail_size (1024, 512) (width merged, height merged))"
    by (simp_all add: final_def thumbnail_dims)
  have within: "width merged \<le> 1024 \<and> height merged \<le> 512 \<longrightarrow> final = merged"
    by (simp add: final_def thumbnail_within)
  have fits: "width final \<le> 1024 \<and> height final \<le> 512"
    using thumbnail_size_fits [of 1024 512 "width merged" "height merged"] wpos hpos
    by (simp add: dims)
  have shrinks: "width final \<le> width merged \<and> height final \<le> height merged"
    using thumbnail_size_shrinks [of 1024 512 "width merged" "height merged"] wpos hpos
    by (simp add: dims)
  have fpos: "0 < width final \<and> 0 < height final"
    using thumbnail_size_pos [of 1024 512 "width merged" "height merged"] wpos hpos
    by (simp add: dims)
  have aspect: "\<bar>int (width final) * int (height merged) - int (height final) * int (width merged)\<bar>
          < int (max (width merged) (height merged))"
    using thumbnail_size_aspect [of 1024 512 "width merged" "height merged"] wpos hpos
    by (simp add: dims)
  from m wd ht px rs within fits shrinks fpos aspect show ?thesis
    unfolding Let_def save_url_def [symmetric] merged_def [symmetric] final_def [symmetric]
    by (intro conjI) simp_all
qed

theorem merge_then_resize_witness:
  "open_all (fs post_world) (glob_png post_world) = Inr [bolt_image, counterspell_image] \<and>
   snd (snd (merge_card_images post_world (fs post_world) example_cards)) = Inr merged_path \<and>
   width (merged_image [bolt_image, counterspell_image]) = 1490 \<and>
   height (merged_image [bolt_image, counterspell_image]) = 1040 \<and>
   pixel (merged_image [bolt_image, counterspell_image]) (745 + 10) 20 = (30, 30, 200) \<and>
   width (thumbnail post_world (1024, 512) (merged_image [bolt_image, counterspell_image])) = 734 \<and>
   height (thumbnail post_world (1024, 512) (merged_image [bolt_image, counterspell_image])) = 512"
proof -
  let ?ims = "[bolt_image, counterspell_image]"
  have h2: "?ims \<noteq> []" by simp
  have h3: "example_cards =
      \<lparr>sc_name = ''Lightning Bolt'', sc_uri = ''https://scryfall.com/card/a25/141''\<rparr> #
      \<lparr>sc_name = ''Counterspell'', sc_uri = ''https://scryfall.com/card/a25/50''\<rparr> # []"
    by (simp add: example_cards_def)
  have h4: "\<forall>im \<in> set ?ims. 0 < width im \<and> 0 < height im"
    by (simp add: bolt_image_def counterspell_image_def)
  note t = merge_then_resize [OF open_all_post_world h2 h3 h4, unfolded Let_def]
  have tc: "TEMP_CARD_DIR post_world = ''../cards/''"
    by (simp add: post_world_def search_world_def)
  from t have "merge_card_images post_world (fs post_world) example_cards =
      ((fs post_world)(merged_path \<mapsto> ImageFile (merged_image ?ims)),
       [(DEBUG, ''Saved merged image to {0}'', [S merged_path])], Inr merged_path)"
    by (simp add: tc merged_path_def)
  then have a: "snd (snd (merge_card_images post_world (fs post_world) example_cards)) = Inr merged_path"
    by simp
  from t have "width (merged_image ?ims) = sum_list (map width ?ims)"
    by (simp add: tc merged_path_def)
  then have b: "width (merged_image ?ims) = 1490"
    by (simp add: bolt_image_def counterspell_image_def)
  from t have "height (merged_image ?ims) = Max (set (map height ?ims))"
    by (simp add: tc merged_path_def)
  then have c: "height (merged_image ?ims) = 1040"
    by (simp add: bolt_image_def counterspell_image_def)
  from t have "\<forall>i x y. i < length ?ims \<longrightarrow> x < width (?ims ! i) \<longrightarrow> y < height (?ims ! i) \<longrightarrow>
           pixel (merged_image ?ims) (sum_list (map width (take i ?ims)) + x) y = pixel (?ims ! i) x y"
    by (simp add: tc merged_path_def)
  from this [rule_format, of 1 10 20]
  have d: "pixel (merged_image ?ims) (745 + 10) 20 = (30, 30, 200)"
    by (simp add: bolt_image_def counterspell_image_def)
  have e: "width (thumbnail post_world (1024, 512) (merged_image ?ims)) = 734"
    "height (thumbnail post_world (1024, 512) (merged_image ?ims)) = 512"
    by (simp_all add: thumbnail_dims b c thumbnail_size_example)
  from open_all_post_world a b c d e show ?thesis
    by (intro conjI)
qed

end
